theory Spec2Isabelle
  imports Main "HOL-Library.Word"
begin

unbundle bit_operations_syntax

section \<open>Machine types and protocol constants (firmware/src/main.cpp)\<close>

type_synonym u8 = "8 word"
type_synonym u16 = "16 word"
type_synonym i16 = "16 word"
type_synonym i32 = "32 word"

text \<open>
  \<^verbatim>\<open>int16_t\<close> values are 16-bit words read with \<open>sint\<close>; C's \<^verbatim>\<open>int\<close> (the type every
  \<^verbatim>\<open>uint8_t\<close> and \<^verbatim>\<open>int16_t\<close> operand is promoted to) is a 32-bit word.
\<close>

definition SYNC_HOST_TO_DEVICE :: u8 where
  "SYNC_HOST_TO_DEVICE = 0xC0"

definition SYNC_DEVICE_TO_HOST :: u8 where
  "SYNC_DEVICE_TO_HOST = 0xC1"

definition OUTPUT_PACKET_SIZE :: nat where
  "OUTPUT_PACKET_SIZE = 10"

definition INPUT_PACKET_SIZE :: nat where
  "INPUT_PACKET_SIZE = 16"

definition INPUT_REPORT_INTERVAL :: i32 where
  "INPUT_REPORT_INTERVAL = 48"

section \<open>Shared state between the two cores\<close>

text \<open>
  The file-scope \<^verbatim>\<open>volatile\<close> globals. The arrays are lists of their declared sizes
  (\<open>wf_shared\<close>); every index the code uses on them is a constant inside the array.
\<close>

record shared =
  target :: "i16 list"
  target_flags :: u8
  input_cv :: "i16 list"
  input_audio :: "i16 list"
  input_knobs :: "i16 list"
  input_flags :: u8
  inputs_ready :: bool

definition shared_init :: shared where
  "shared_init = \<lparr> target = [0, 0, 0, 0], target_flags = 0,
     input_cv = [0, 0], input_audio = [0, 0], input_knobs = [0, 0, 0],
     input_flags = 0, inputs_ready = False \<rparr>"

definition wf_shared :: "shared \<Rightarrow> bool" where
  "wf_shared s = (length (target s) = 4 \<and> length (input_cv s) = 2 \<and>
     length (input_audio s) = 2 \<and> length (input_knobs s) = 3)"

section \<open>Core 0: the inbound decoder of \<^verbatim>\<open>usb_loop\<close>\<close>

text \<open>
  The locals of \<^verbatim>\<open>usb_loop\<close>: \<^verbatim>\<open>uint8_t pktBuf[OUTPUT_PACKET_SIZE]\<close> (not initialised
  by the code) and \<^verbatim>\<open>uint8_t pktPos = 0\<close>.
\<close>

record usb_state =
  pktBuf :: "u8 list"
  pktPos :: u8

definition usb_init :: "u8 list \<Rightarrow> usb_state" where
  "usb_init buf0 = \<lparr> pktBuf = buf0, pktPos = 0 \<rparr>"

definition parser_empty :: "usb_state \<Rightarrow> bool" where
  "parser_empty u = (pktPos u = 0 \<and> length (pktBuf u) = OUTPUT_PACKET_SIZE)"

text \<open>A write past the end of \<^verbatim>\<open>pktBuf\<close> is undefined behaviour in C: a fault of the model.\<close>

datatype fault = BufferOverrun

text \<open>The values a completed packet assigns to \<^verbatim>\<open>target_flags\<close> and \<^verbatim>\<open>target[0..3]\<close>.\<close>

record command_frame =
  cf_flags :: u8
  cf_ch1 :: i16
  cf_ch2 :: i16
  cf_ch3 :: i16
  cf_ch4 :: i16

text \<open>\<^verbatim>\<open>(int16_t)(lo | (hi << 8))\<close> on two promoted \<^verbatim>\<open>uint8_t\<close> operands.\<close>

definition extract16 :: "u8 \<Rightarrow> u8 \<Rightarrow> i16" where
  "extract16 lo hi = ucast ((ucast lo :: i32) OR push_bit 8 (ucast hi :: i32))"

definition frame_of_buf :: "u8 list \<Rightarrow> command_frame" where
  "frame_of_buf buf = \<lparr> cf_flags = buf ! 1,
     cf_ch1 = extract16 (buf ! 2) (buf ! 3),
     cf_ch2 = extract16 (buf ! 4) (buf ! 5),
     cf_ch3 = extract16 (buf ! 6) (buf ! 7),
     cf_ch4 = extract16 (buf ! 8) (buf ! 9) \<rparr>"

text \<open>
  What the decoder did with one byte: restarted on a sync byte met mid-packet (the first
  \<^verbatim>\<open>continue\<close>), dropped a non-sync byte while waiting (the second \<^verbatim>\<open>continue\<close>), stored
  the byte, or stored it and completed a packet.
\<close>

datatype rx_event = Resync | Dropped | Stored | Completed command_frame

definition decoder_step :: "u8 \<Rightarrow> usb_state \<Rightarrow> fault + (usb_state \<times> rx_event)" where
  "decoder_step b u =
     (if 0 < pktPos u \<and> b = SYNC_HOST_TO_DEVICE then
        Inr (u\<lparr> pktBuf := (pktBuf u)[0 := b], pktPos := 1 \<rparr>, Resync)
      else if pktPos u = 0 \<and> b \<noteq> SYNC_HOST_TO_DEVICE then
        Inr (u, Dropped)
      else if \<not> unat (pktPos u) < OUTPUT_PACKET_SIZE then
        Inl BufferOverrun
      else
        (let buf = (pktBuf u)[unat (pktPos u) := b];
             pos = pktPos u + 1
         in if unat pos = OUTPUT_PACKET_SIZE then
              Inr (\<lparr> pktBuf = buf, pktPos = 0 \<rparr>, Completed (frame_of_buf buf))
            else
              Inr (\<lparr> pktBuf = buf, pktPos = pos \<rparr>, Stored)))"

text \<open>The frames a run of the decoder over a byte sequence completes, in order.\<close>

fun frames_of :: "rx_event list \<Rightarrow> command_frame list" where
  "frames_of [] = []"
| "frames_of (Completed f # es) = f # frames_of es"
| "frames_of (_ # es) = frames_of es"

fun feed :: "usb_state \<Rightarrow> u8 list \<Rightarrow> fault + (usb_state \<times> command_frame list)" where
  "feed u [] = Inr (u, [])"
| "feed u (b # bs) =
     (case decoder_step b u of
        Inl e \<Rightarrow> Inl e
      | Inr (u', ev) \<Rightarrow>
          (case feed u' bs of
             Inl e \<Rightarrow> Inl e
           | Inr (u'', fs) \<Rightarrow> Inr (u'', frames_of [ev] @ fs)))"

text \<open>The same bytes delivered as a sequence of chunks, the parser state kept between chunks.\<close>

fun feed_chunks :: "usb_state \<Rightarrow> u8 list list \<Rightarrow> fault + (usb_state \<times> command_frame list)" where
  "feed_chunks u [] = Inr (u, [])"
| "feed_chunks u (c # cs) =
     (case feed u c of
        Inl e \<Rightarrow> Inl e
      | Inr (u', fs) \<Rightarrow>
          (case feed_chunks u' cs of
             Inl e \<Rightarrow> Inl e
           | Inr (u'', gs) \<Rightarrow> Inr (u'', fs @ gs)))"

text \<open>
  The invariant of the parser state: the cursor is inside the buffer, the buffer has its
  declared size, and a packet in progress starts with the sync byte.
\<close>

definition parser_inv :: "usb_state \<Rightarrow> bool" where
  "parser_inv u = (unat (pktPos u) < OUTPUT_PACKET_SIZE \<and>
     length (pktBuf u) = OUTPUT_PACKET_SIZE \<and>
     (0 < pktPos u \<longrightarrow> pktBuf u ! 0 = SYNC_HOST_TO_DEVICE))"

section \<open>Core 0: snapshot hand-off and the outbound encoder of \<^verbatim>\<open>usb_loop\<close>\<close>

text \<open>The local copies \<^verbatim>\<open>usb_loop\<close> takes of the input globals.\<close>

record snapshot =
  sn_flags :: u8
  sn_cv0 :: i16
  sn_cv1 :: i16
  sn_audio0 :: i16
  sn_audio1 :: i16
  sn_knob0 :: i16
  sn_knob1 :: i16
  sn_knob2 :: i16

text \<open>
  \<^verbatim>\<open>if (inputs_ready) { inputs_ready = false; uint8_t flags = input_flags; ... }\<close>:
  nothing when the flag is clear, else the flag is cleared and the eight values are read.
\<close>

definition takeSnapshotIfReady :: "shared \<Rightarrow> snapshot option \<times> shared" where
  "takeSnapshotIfReady s =
     (if inputs_ready s then
        (let s' = s\<lparr> inputs_ready := False \<rparr>
         in (Some \<lparr> sn_flags = input_flags s',
                    sn_cv0 = input_cv s' ! 0, sn_cv1 = input_cv s' ! 1,
                    sn_audio0 = input_audio s' ! 0, sn_audio1 = input_audio s' ! 1,
                    sn_knob0 = input_knobs s' ! 0, sn_knob1 = input_knobs s' ! 1,
                    sn_knob2 = input_knobs s' ! 2 \<rparr>, s'))
      else (None, s))"

text \<open>
  \<^verbatim>\<open>(uint8_t)(v & 0xFF)\<close> and \<^verbatim>\<open>(uint8_t)((v >> 8) & 0xFF)\<close> on an \<^verbatim>\<open>int16_t\<close> promoted to
  \<^verbatim>\<open>int\<close> (sign-extended; \<^verbatim>\<open>>>\<close> is the arithmetic shift of the target compiler).
\<close>

definition lo_byte :: "i16 \<Rightarrow> u8" where
  "lo_byte v = ucast ((scast v :: i32) AND 0xFF)"

definition hi_byte :: "i16 \<Rightarrow> u8" where
  "hi_byte v = ucast (signed_drop_bit 8 (scast v :: i32) AND 0xFF)"

definition encode_snapshot :: "snapshot \<Rightarrow> u8 list" where
  "encode_snapshot sn =
     [SYNC_DEVICE_TO_HOST, sn_flags sn,
      lo_byte (sn_cv0 sn), hi_byte (sn_cv0 sn),
      lo_byte (sn_cv1 sn), hi_byte (sn_cv1 sn),
      lo_byte (sn_audio0 sn), hi_byte (sn_audio0 sn),
      lo_byte (sn_audio1 sn), hi_byte (sn_audio1 sn),
      lo_byte (sn_knob0 sn), hi_byte (sn_knob0 sn),
      lo_byte (sn_knob1 sn), hi_byte (sn_knob1 sn),
      lo_byte (sn_knob2 sn), hi_byte (sn_knob2 sn)]"

text \<open>
  The inbound field extraction (\<open>extract16\<close>, flags at offset 1) applied to the outbound
  layout: seven little-endian fields from offset 2. The firmware has no decoder for its own
  outbound frames; this one is the reader the round-trip property speaks of.
\<close>

definition extract_fields :: "u8 list \<Rightarrow> snapshot" where
  "extract_fields pkt =
     \<lparr> sn_flags = pkt ! 1,
       sn_cv0 = extract16 (pkt ! 2) (pkt ! 3), sn_cv1 = extract16 (pkt ! 4) (pkt ! 5),
       sn_audio0 = extract16 (pkt ! 6) (pkt ! 7), sn_audio1 = extract16 (pkt ! 8) (pkt ! 9),
       sn_knob0 = extract16 (pkt ! 10) (pkt ! 11),
       sn_knob1 = extract16 (pkt ! 12) (pkt ! 13),
       sn_knob2 = extract16 (pkt ! 14) (pkt ! 15) \<rparr>"

text \<open>
  The value ranges the header comment of main.cpp gives for an input packet: CV and audio
  readings in \<open>-2048..+2047\<close>, knobs in \<open>0..4095\<close>, flags with the two pulse bits and the
  switch position \<open>0/1/2\<close> in bits 2-3.
\<close>

definition native_range :: "i16 \<Rightarrow> bool" where
  "native_range v = (- 2048 \<le> sint v \<and> sint v \<le> 2047)"

definition knob_range :: "i16 \<Rightarrow> bool" where
  "knob_range v = (0 \<le> sint v \<and> sint v \<le> 4095)"

definition flags_range :: "u8 \<Rightarrow> bool" where
  "flags_range f = (drop_bit 4 f = 0 \<and> drop_bit 2 f \<le> 2)"

definition valid_snapshot :: "snapshot \<Rightarrow> bool" where
  "valid_snapshot sn =
     (flags_range (sn_flags sn) \<and>
      native_range (sn_cv0 sn) \<and> native_range (sn_cv1 sn) \<and>
      native_range (sn_audio0 sn) \<and> native_range (sn_audio1 sn) \<and>
      knob_range (sn_knob0 sn) \<and> knob_range (sn_knob1 sn) \<and> knob_range (sn_knob2 sn))"

text \<open>The send section: the bytes handed to \<^verbatim>\<open>putchar_raw\<close>, in order.\<close>

definition usb_send :: "shared \<Rightarrow> shared \<times> u8 list" where
  "usb_send s =
     (case takeSnapshotIfReady s of
        (None, s') \<Rightarrow> (s', [])
      | (Some sn, s') \<Rightarrow> (s', encode_snapshot sn))"

section \<open>Core 0: one iteration of \<^verbatim>\<open>usb_loop\<close>\<close>

text \<open>The assignments of a completed packet to \<^verbatim>\<open>target_flags\<close> and \<^verbatim>\<open>target[0..3]\<close>.\<close>

definition setTargets :: "command_frame \<Rightarrow> shared \<Rightarrow> shared" where
  "setTargets f s =
     s\<lparr> target_flags := cf_flags f,
        target := (target s)[0 := cf_ch1 f, 1 := cf_ch2 f, 2 := cf_ch3 f, 3 := cf_ch4 f] \<rparr>"

text \<open>
  The receive section for the result of \<^verbatim>\<open>getchar_timeout_us(100)\<close>: \<open>None\<close> is
  \<^verbatim>\<open>PICO_ERROR_TIMEOUT\<close>. The boolean says whether a \<^verbatim>\<open>continue\<close> ended the iteration.
\<close>

definition usb_receive ::
  "u8 option \<Rightarrow> usb_state \<Rightarrow> shared \<Rightarrow> fault + (bool \<times> usb_state \<times> shared)" where
  "usb_receive c u s =
     (case c of
        None \<Rightarrow> Inr (False, u, s)
      | Some b \<Rightarrow>
          (case decoder_step b u of
             Inl e \<Rightarrow> Inl e
           | Inr (u', Resync) \<Rightarrow> Inr (True, u', s)
           | Inr (u', Dropped) \<Rightarrow> Inr (True, u', s)
           | Inr (u', Stored) \<Rightarrow> Inr (False, u', s)
           | Inr (u', Completed f) \<Rightarrow> Inr (False, u', setTargets f s)))"

text \<open>The body of \<^verbatim>\<open>while (true)\<close>: receive section, then (unless continued) send section.\<close>

definition usb_loop_body ::
  "u8 option \<Rightarrow> usb_state \<Rightarrow> shared \<Rightarrow> fault + (usb_state \<times> shared \<times> u8 list)" where
  "usb_loop_body c u s =
     (case usb_receive c u s of
        Inl e \<Rightarrow> Inl e
      | Inr (continued, u', s') \<Rightarrow>
          if continued then Inr (u', s', [])
          else (case usb_send s' of (s'', out) \<Rightarrow> Inr (u', s'', out)))"

section \<open>Core 1: \<^verbatim>\<open>OSCBridge::ProcessMainSample\<close>\<close>

text \<open>
  What the hardware layer returns when read on one tick, after the casts the code applies:
  \<^verbatim>\<open>CVIn1()\<close>, \<^verbatim>\<open>CVIn2()\<close>, \<^verbatim>\<open>AudioIn1()\<close>, \<^verbatim>\<open>AudioIn2()\<close>, \<^verbatim>\<open>(int16_t)KnobVal(..)\<close>,
  \<^verbatim>\<open>PulseIn1()\<close>, \<^verbatim>\<open>PulseIn2()\<close> and \<^verbatim>\<open>(uint8_t)SwitchVal()\<close>. The hardware layer
  (ComputerCard.h) is outside the repository's sources, so its results are parameters.
  The second copy of main.cpp stores 0 in place of a reading whose jack is not connected:
  another value of the same parameters.
\<close>

record hw_in =
  CVIn1 :: i16
  CVIn2 :: i16
  AudioIn1 :: i16
  AudioIn2 :: i16
  KnobMain :: i16
  KnobX :: i16
  KnobY :: i16
  PulseIn1 :: bool
  PulseIn2 :: bool
  SwitchVal :: u8

text \<open>What one tick writes to the hardware, and whether it ran the report block.\<close>

record tick_out =
  AudioOut1 :: i16
  AudioOut2 :: i16
  CVOut1 :: i16
  CVOut2 :: i16
  PulseOut1 :: bool
  PulseOut2 :: bool
  LedBrightness :: "u16 list"
  published :: bool

text \<open>
  \<^verbatim>\<open>int32_t v = target[i]; if (v < 0) v = -v; LedBrightness(i, (uint16_t)(v * 2));\<close>
\<close>

definition led_level :: "i16 \<Rightarrow> u16" where
  "led_level t =
     (let v = (scast t :: i32);
          v' = (if v <s 0 then - v else v)
      in ucast (v' * 2))"

text \<open>
  The report block: seven readings and the flags byte are stored, \<^verbatim>\<open>inputs_ready = true\<close>
  is the last write.
\<close>

definition report_flags :: "hw_in \<Rightarrow> u8" where
  "report_flags hw =
     ucast (((if PulseIn1 hw then 0x01 else 0x00) :: i32) OR
            (if PulseIn2 hw then 0x02 else 0x00) OR
            push_bit 2 (ucast (SwitchVal hw) :: i32))"

definition publishSnapshot :: "hw_in \<Rightarrow> shared \<Rightarrow> shared" where
  "publishSnapshot hw s =
     s\<lparr> input_cv := (input_cv s)[0 := CVIn1 hw, 1 := CVIn2 hw],
        input_audio := (input_audio s)[0 := AudioIn1 hw, 1 := AudioIn2 hw],
        input_knobs := (input_knobs s)[0 := KnobMain hw, 1 := KnobX hw, 2 := KnobY hw],
        input_flags := report_flags hw,
        inputs_ready := True \<rparr>"

text \<open>The eight values one report block stores, as the reader will copy them.\<close>

definition snapshot_of :: "hw_in \<Rightarrow> snapshot" where
  "snapshot_of hw =
     \<lparr> sn_flags = report_flags hw,
       sn_cv0 = CVIn1 hw, sn_cv1 = CVIn2 hw,
       sn_audio0 = AudioIn1 hw, sn_audio1 = AudioIn2 hw,
       sn_knob0 = KnobMain hw, sn_knob1 = KnobX hw, sn_knob2 = KnobY hw \<rparr>"

text \<open>
  The member \<^verbatim>\<open>int reportCounter = 0\<close> is the sampler's only private state: a 32-bit
  signed counter, compared with \<^verbatim>\<open>>=\<close> after the increment. From zero it stays in
  \<open>0..47\<close>, so the increment never overflows.
\<close>

definition ProcessMainSample :: "hw_in \<Rightarrow> i32 \<Rightarrow> shared \<Rightarrow> i32 \<times> shared \<times> tick_out" where
  "ProcessMainSample hw reportCounter s =
     (let f = target_flags s;
          leds = map (\<lambda>i. led_level (target s ! i)) [0..<4];
          out = \<lparr> AudioOut1 = target s ! 0, AudioOut2 = target s ! 1,
                  CVOut1 = target s ! 2, CVOut2 = target s ! 3,
                  PulseOut1 = (f AND 0x01 \<noteq> 0), PulseOut2 = (f AND 0x02 \<noteq> 0),
                  LedBrightness = leds, published = False \<rparr>;
          rc = reportCounter + 1
      in if INPUT_REPORT_INTERVAL \<le>s rc
         then (0, publishSnapshot hw s, out\<lparr> published := True \<rparr>)
         else (rc, s, out))"


section \<open>Properties of the decoder\<close>

subsection \<open>Auxiliary facts\<close>

lemma feed_append:
  "feed u (xs @ ys) =
     (case feed u xs of
        Inl e \<Rightarrow> Inl e
      | Inr (u', fs) \<Rightarrow>
          (case feed u' ys of Inl e \<Rightarrow> Inl e | Inr (u'', gs) \<Rightarrow> Inr (u'', fs @ gs)))"
  by (induction xs arbitrary: u) (auto split: sum.splits prod.splits)

lemma feed_chunks_concat: "feed_chunks u cs = feed u (concat cs)"
  by (induction cs arbitrary: u) (auto simp: feed_append split: sum.splits prod.splits)

lemma length10E:
  assumes "length (xs :: 'a list) = 10"
  obtains a0 a1 a2 a3 a4 a5 a6 a7 a8 a9
  where "xs = [a0, a1, a2, a3, a4, a5, a6, a7, a8, a9]"
  using assms by (auto simp: length_Suc_conv numeral_eq_Suc)

lemma parser_emptyE:
  assumes "parser_empty u0"
  obtains a0 a1 a2 a3 a4 a5 a6 a7 a8 a9
  where "u0 = \<lparr> pktBuf = [a0, a1, a2, a3, a4, a5, a6, a7, a8, a9], pktPos = 0 \<rparr>"
proof -
  from assms obtain a0 a1 a2 a3 a4 a5 a6 a7 a8 a9 where
    "pktBuf u0 = [a0, a1, a2, a3, a4, a5, a6, a7, a8, a9]"
    unfolding parser_empty_def OUTPUT_PACKET_SIZE_def by (elim conjE length10E)
  moreover from assms have "pktPos u0 = 0" by (simp add: parser_empty_def)
  ultimately have "u0 = \<lparr> pktBuf = [a0, a1, a2, a3, a4, a5, a6, a7, a8, a9], pktPos = 0 \<rparr>"
    by (cases u0) simp
  then show thesis by (rule that)
qed

lemma unat_succ_small: "unat (p :: u8) < 10 \<Longrightarrow> unat (p + 1) = Suc (unat p)"
  by (simp add: unat_word_ariths)

lemma pos_gt0_iff: "0 < (p :: u8) \<longleftrightarrow> unat p \<noteq> 0"
  by (simp add: word_gt_0 unat_eq_0)

lemma decoder_step_inv:
  assumes "parser_inv u"
  shows "\<exists>u' ev. decoder_step b u = Inr (u', ev) \<and> parser_inv u'"
proof -
  from assms have pos: "unat (pktPos u) < 10" and len: "length (pktBuf u) = 10"
    and hd: "unat (pktPos u) \<noteq> 0 \<Longrightarrow> pktBuf u ! 0 = 0xC0"
    by (simp_all add: parser_inv_def OUTPUT_PACKET_SIZE_def SYNC_HOST_TO_DEVICE_def pos_gt0_iff)
  have suc: "unat (pktPos u + 1) = Suc (unat (pktPos u))"
    using pos by (rule unat_succ_small)
  show ?thesis
  proof (cases "unat (pktPos u) = 0")
    case True
    then have "pktPos u = 0" by (simp add: unat_eq_0)
    then show ?thesis using len
      by (auto simp: decoder_step_def parser_inv_def Let_def pos_gt0_iff
          OUTPUT_PACKET_SIZE_def SYNC_HOST_TO_DEVICE_def)
  next
    case False
    then show ?thesis using len suc pos hd
      by (auto simp: decoder_step_def parser_inv_def Let_def pos_gt0_iff
          OUTPUT_PACKET_SIZE_def SYNC_HOST_TO_DEVICE_def nth_list_update)
  qed
qed

lemma feed_inv:
  "parser_inv u \<Longrightarrow> \<exists>u' fs. feed u bs = Inr (u', fs) \<and> parser_inv u'"
proof (induction bs arbitrary: u)
  case Nil
  then show ?case by simp
next
  case (Cons b bs)
  from decoder_step_inv [OF Cons.prems, of b]
  obtain u1 ev where s: "decoder_step b u = Inr (u1, ev)" and i: "parser_inv u1" by blast
  from Cons.IH [OF i] obtain u2 fs where "feed u1 bs = Inr (u2, fs)" "parser_inv u2" by blast
  with s show ?case by simp
qed

lemma parser_empty_inv: "parser_empty u \<Longrightarrow> parser_inv u"
  by (simp add: parser_empty_def parser_inv_def OUTPUT_PACKET_SIZE_def)

lemma feed_clean_frame:
  assumes "b1 \<noteq> 0xC0" "b2 \<noteq> 0xC0" "b3 \<noteq> 0xC0" "b4 \<noteq> 0xC0" "b5 \<noteq> 0xC0"
    "b6 \<noteq> 0xC0" "b7 \<noteq> 0xC0" "b8 \<noteq> 0xC0" "b9 \<noteq> 0xC0"
  shows "feed \<lparr> pktBuf = [a0, a1, a2, a3, a4, a5, a6, a7, a8, a9], pktPos = 0 \<rparr>
           [0xC0, b1, b2, b3, b4, b5, b6, b7, b8, b9] =
         Inr (\<lparr> pktBuf = [0xC0, b1, b2, b3, b4, b5, b6, b7, b8, b9], pktPos = 0 \<rparr>,
              [frame_of_buf [0xC0, b1, b2, b3, b4, b5, b6, b7, b8, b9]])"
  using assms
  by (simp add: decoder_step_def SYNC_HOST_TO_DEVICE_def OUTPUT_PACKET_SIZE_def Let_def)

lemma feed_frame:
  assumes e: "parser_empty u0" and l: "length frame = OUTPUT_PACKET_SIZE"
    and h: "hd frame = SYNC_HOST_TO_DEVICE" and t: "SYNC_HOST_TO_DEVICE \<notin> set (tl frame)"
  shows "feed u0 frame = Inr (\<lparr> pktBuf = frame, pktPos = 0 \<rparr>, [frame_of_buf frame])"
proof -
  from l obtain b0 b1 b2 b3 b4 b5 b6 b7 b8 b9 where
    f: "frame = [b0, b1, b2, b3, b4, b5, b6, b7, b8, b9]"
    unfolding OUTPUT_PACKET_SIZE_def by (rule length10E)
  from e obtain a0 a1 a2 a3 a4 a5 a6 a7 a8 a9 where
    u: "u0 = \<lparr> pktBuf = [a0, a1, a2, a3, a4, a5, a6, a7, a8, a9], pktPos = 0 \<rparr>"
    by (rule parser_emptyE)
  from h f have b0: "b0 = 0xC0" by (simp add: SYNC_HOST_TO_DEVICE_def)
  from t f have "b1 \<noteq> 0xC0" "b2 \<noteq> 0xC0" "b3 \<noteq> 0xC0" "b4 \<noteq> 0xC0" "b5 \<noteq> 0xC0"
    "b6 \<noteq> 0xC0" "b7 \<noteq> 0xC0" "b8 \<noteq> 0xC0" "b9 \<noteq> 0xC0"
    by (simp_all add: SYNC_HOST_TO_DEVICE_def)
  then show ?thesis unfolding u f b0 by (rule feed_clean_frame)
qed

subsection \<open>Chunked delivery of one frame\<close>

text \<open>
  C1, as stated, fails: a 10-byte frame that starts with the sync byte may carry the value
  \<open>0xC0\<close> in its payload (here channel 1 = 192), and then the decoder restarts at that
  byte and completes no frame, whether the bytes come in one chunk or in several.
\<close>

theorem chunked_frame_counterexample:
  "feed_chunks (usb_init [0, 0, 0, 0, 0, 0, 0, 0, 0, 0])
     [[0xC0, 0x00], [0xC0, 0x00, 0x00, 0x00, 0x00, 0x00, 0x00, 0x00]] =
   Inr (\<lparr> pktBuf = [0xC0, 0x00, 0x00, 0x00, 0x00, 0x00, 0x00, 0x00, 0x00, 0x00],
          pktPos = 8 \<rparr>, [])"
  by (simp add: usb_init_def decoder_step_def SYNC_HOST_TO_DEVICE_def OUTPUT_PACKET_SIZE_def
      Let_def)

text \<open>
  C1, amended: for every 10-byte frame whose first byte is the sync byte \<open>0xC0\<close> and whose
  nine payload bytes all differ from \<open>0xC0\<close>, feeding its bytes from an empty parser state
  in any partition into chunks completes exactly one frame, the one with the flags and the
  four little-endian channel values of the frame, and leaves the same result as feeding the
  ten bytes in a single chunk.
\<close>

theorem chunked_frame_decodes_once:
  assumes "parser_empty u0"
    and "length frame = OUTPUT_PACKET_SIZE"
    and "hd frame = SYNC_HOST_TO_DEVICE"
    and "SYNC_HOST_TO_DEVICE \<notin> set (tl frame)"
    and "concat chunks = frame"
  shows "feed_chunks u0 chunks = Inr (\<lparr> pktBuf = frame, pktPos = 0 \<rparr>, [frame_of_buf frame])
       \<and> feed_chunks u0 chunks = feed u0 frame"
  using assms by (simp add: feed_chunks_concat feed_frame)

theorem chunked_frame_decodes_once_witness:
  "parser_empty (usb_init [0, 0, 0, 0, 0, 0, 0, 0, 0, 0])
   \<and> concat [[0xC0], [0x00, 0x00], [0x08, 0x00, 0x00, 0x00, 0x00, 0x00, 0x00]] =
       [0xC0, 0x00, 0x00, 0x08, 0x00, 0x00, 0x00, 0x00, 0x00, 0x00]
   \<and> feed_chunks (usb_init [0, 0, 0, 0, 0, 0, 0, 0, 0, 0])
       [[0xC0], [0x00, 0x00], [0x08, 0x00, 0x00, 0x00, 0x00, 0x00, 0x00]] =
     Inr (\<lparr> pktBuf = [0xC0, 0x00, 0x00, 0x08, 0x00, 0x00, 0x00, 0x00, 0x00, 0x00],
            pktPos = 0 \<rparr>,
          [\<lparr> cf_flags = 0, cf_ch1 = 2048, cf_ch2 = 0, cf_ch3 = 0, cf_ch4 = 0 \<rparr>])"
  using chunked_frame_decodes_once [of "usb_init [0, 0, 0, 0, 0, 0, 0, 0, 0, 0]"
      "[0xC0, 0x00, 0x00, 0x08, 0x00, 0x00, 0x00, 0x00, 0x00, 0x00]"
      "[[0xC0], [0x00, 0x00], [0x08, 0x00, 0x00, 0x00, 0x00, 0x00, 0x00]]"]
  by (simp add: parser_empty_def usb_init_def SYNC_HOST_TO_DEVICE_def OUTPUT_PACKET_SIZE_def
      frame_of_buf_def extract16_def)

subsection \<open>Resynchronisation on a sync byte met mid-packet\<close>

text \<open>
  C2: from an empty parser state, the bytes \<open>C0 11 C0 22 00 00 00 00 00 00\<close> complete no
  frame. After the first two the cursor is 2; the second sync byte restarts the packet
  (cursor 1, sync byte at offset 0), so the whole sequence leaves the decoder where the last
  eight bytes alone leave it, with 8 bytes accumulated. One further non-sync byte completes
  nothing; the second one completes the frame made of the bytes from index 2 on.
\<close>

theorem resync_restarts_at_embedded_sync:
  assumes "parser_empty u0"
    and "b1 \<noteq> SYNC_HOST_TO_DEVICE" and "b2 \<noteq> SYNC_HOST_TO_DEVICE"
  shows "(\<exists>u. feed u0 [0xC0, 0x11] = Inr (u, []) \<and> pktPos u = 2)
       \<and> (\<exists>u. feed u0 [0xC0, 0x11, 0xC0] = Inr (u, []) \<and> pktPos u = 1
                \<and> pktBuf u ! 0 = SYNC_HOST_TO_DEVICE)
       \<and> feed u0 [0xC0, 0x11, 0xC0, 0x22, 0x00, 0x00, 0x00, 0x00, 0x00, 0x00] =
           feed u0 [0xC0, 0x22, 0x00, 0x00, 0x00, 0x00, 0x00, 0x00]
       \<and> (\<exists>u. feed u0 [0xC0, 0x11, 0xC0, 0x22, 0x00, 0x00, 0x00, 0x00, 0x00, 0x00] =
                  Inr (u, []) \<and> pktPos u = 8)
       \<and> (\<exists>u. feed u0 [0xC0, 0x11, 0xC0, 0x22, 0x00, 0x00, 0x00, 0x00, 0x00, 0x00, b1] =
                  Inr (u, []) \<and> pktPos u = 9)
       \<and> feed u0 [0xC0, 0x11, 0xC0, 0x22, 0x00, 0x00, 0x00, 0x00, 0x00, 0x00, b1, b2] =
           Inr (\<lparr> pktBuf = [0xC0, 0x22, 0x00, 0x00, 0x00, 0x00, 0x00, 0x00, b1, b2],
                  pktPos = 0 \<rparr>,
                [\<lparr> cf_flags = 0x22, cf_ch1 = 0, cf_ch2 = 0, cf_ch3 = 0,
                   cf_ch4 = extract16 b1 b2 \<rparr>])"
proof -
  from assms(1) obtain a0 a1 a2 a3 a4 a5 a6 a7 a8 a9 where
    u: "u0 = \<lparr> pktBuf = [a0, a1, a2, a3, a4, a5, a6, a7, a8, a9], pktPos = 0 \<rparr>"
    by (rule parser_emptyE)
  have z: "extract16 0 0 = 0" by (simp add: extract16_def)
  from assms(2,3) show ?thesis
    unfolding u
    by (simp add: decoder_step_def SYNC_HOST_TO_DEVICE_def OUTPUT_PACKET_SIZE_def Let_def
        frame_of_buf_def z)
qed

theorem resync_restarts_at_embedded_sync_witness:
  "parser_empty (usb_init [0, 0, 0, 0, 0, 0, 0, 0, 0, 0])
   \<and> (0x34 :: u8) \<noteq> SYNC_HOST_TO_DEVICE \<and> (0x12 :: u8) \<noteq> SYNC_HOST_TO_DEVICE
   \<and> feed (usb_init [0, 0, 0, 0, 0, 0, 0, 0, 0, 0])
       [0xC0, 0x11, 0xC0, 0x22, 0x00, 0x00, 0x00, 0x00, 0x00, 0x00, 0x34, 0x12] =
     Inr (\<lparr> pktBuf = [0xC0, 0x22, 0x00, 0x00, 0x00, 0x00, 0x00, 0x00, 0x34, 0x12],
            pktPos = 0 \<rparr>,
          [\<lparr> cf_flags = 0x22, cf_ch1 = 0, cf_ch2 = 0, cf_ch3 = 0, cf_ch4 = 0x1234 \<rparr>])"
  using resync_restarts_at_embedded_sync
    [of "usb_init [0, 0, 0, 0, 0, 0, 0, 0, 0, 0]" "0x34" "0x12"]
  by (simp add: parser_empty_def usb_init_def SYNC_HOST_TO_DEVICE_def OUTPUT_PACKET_SIZE_def
      extract16_def)

subsection \<open>The parser-state invariant\<close>

text \<open>
  C9: every byte sequence fed from an empty parser state is processed without a write
  outside the buffer, and from the state it reaches every further byte is processed without
  one too and leaves the cursor in \<open>0..9\<close>, the buffer at its 10 bytes, and, whenever the
  cursor is above 0, the sync byte \<open>0xC0\<close> at offset 0.
\<close>

theorem parser_cursor_in_bounds:
  assumes "parser_empty u0"
  shows "\<exists>u fs. feed u0 bs = Inr (u, fs)
           \<and> (\<forall>b. \<exists>u' ev. decoder_step b u = Inr (u', ev)
                  \<and> unat (pktPos u') < OUTPUT_PACKET_SIZE
                  \<and> length (pktBuf u') = OUTPUT_PACKET_SIZE
                  \<and> (0 < pktPos u' \<longrightarrow> pktBuf u' ! 0 = SYNC_HOST_TO_DEVICE))"
proof -
  from assms have "parser_inv u0" by (rule parser_empty_inv)
  then obtain u fs where f: "feed u0 bs = Inr (u, fs)" and i: "parser_inv u"
    using feed_inv by blast
  have "\<exists>u' ev. decoder_step b u = Inr (u', ev) \<and> parser_inv u'" for b
    using i by (rule decoder_step_inv)
  then show ?thesis using f unfolding parser_inv_def by blast
qed

theorem parser_cursor_in_bounds_witness:
  "parser_empty (usb_init [0, 0, 0, 0, 0, 0, 0, 0, 0, 0])
   \<and> (\<exists>u fs. feed (usb_init [0, 0, 0, 0, 0, 0, 0, 0, 0, 0]) [0x07, 0xC0, 0x11] = Inr (u, fs)
        \<and> (\<exists>u' ev. decoder_step 0xC0 u = Inr (u', ev)
              \<and> unat (pktPos u') < OUTPUT_PACKET_SIZE
              \<and> pktBuf u' ! 0 = SYNC_HOST_TO_DEVICE))"
proof -
  have e: "parser_empty (usb_init [0, 0, 0, 0, 0, 0, 0, 0, 0, 0])"
    by (simp add: parser_empty_def usb_init_def OUTPUT_PACKET_SIZE_def)
  from parser_cursor_in_bounds [OF e, of "[0x07, 0xC0, 0x11]"] e show ?thesis
    by (simp add: usb_init_def decoder_step_def SYNC_HOST_TO_DEVICE_def
        OUTPUT_PACKET_SIZE_def Let_def)
qed

section \<open>Properties of the outbound encoder\<close>

lemma ff_mask: "(0xFF :: i32) = mask 8"
  by (simp add: mask_eq_exp_minus_1)

lemma extract16_bytes: "extract16 (lo_byte v) (hi_byte v) = v"
  unfolding extract16_def lo_byte_def hi_byte_def ff_mask
  by (rule bit_word_eqI) (auto simp: bit_simps)

lemma extract_encode: "extract_fields (encode_snapshot sn) = sn"
  by (simp add: extract_fields_def encode_snapshot_def extract16_bytes)

text \<open>
  C3: for every snapshot whose fields lie in their valid ranges, the encoder writes 16
  bytes that start with the outbound sync byte, and the inbound-style extraction of the
  flags byte and the seven little-endian 16-bit fields gives the snapshot back. (The proof
  does not use the ranges: the round trip holds for every 16-bit value.)
\<close>

theorem outbound_roundtrip:
  assumes "valid_snapshot sn"
  shows "length (encode_snapshot sn) = INPUT_PACKET_SIZE
       \<and> encode_snapshot sn ! 0 = SYNC_DEVICE_TO_HOST
       \<and> extract_fields (encode_snapshot sn) = sn"
  by (simp add: extract_encode) (simp add: encode_snapshot_def INPUT_PACKET_SIZE_def)

theorem outbound_roundtrip_witness:
  "valid_snapshot \<lparr> sn_flags = 0x06, sn_cv0 = 100, sn_cv1 = - 50, sn_audio0 = 0,
       sn_audio1 = 0, sn_knob0 = 4095, sn_knob1 = 0, sn_knob2 = 2048 \<rparr>
   \<and> encode_snapshot \<lparr> sn_flags = 0x06, sn_cv0 = 100, sn_cv1 = - 50, sn_audio0 = 0,
       sn_audio1 = 0, sn_knob0 = 4095, sn_knob1 = 0, sn_knob2 = 2048 \<rparr> =
     [0xC1, 0x06, 0x64, 0x00, 0xCE, 0xFF, 0x00, 0x00, 0x00, 0x00, 0xFF, 0x0F, 0x00, 0x00,
      0x00, 0x08]
   \<and> extract_fields
       [0xC1, 0x06, 0x64, 0x00, 0xCE, 0xFF, 0x00, 0x00, 0x00, 0x00, 0xFF, 0x0F, 0x00, 0x00,
        0x00, 0x08] =
     \<lparr> sn_flags = 0x06, sn_cv0 = 100, sn_cv1 = - 50, sn_audio0 = 0,
       sn_audio1 = 0, sn_knob0 = 4095, sn_knob1 = 0, sn_knob2 = 2048 \<rparr>"
proof -
  let ?sn = "\<lparr> sn_flags = 0x06, sn_cv0 = 100, sn_cv1 = - 50, sn_audio0 = 0,
       sn_audio1 = 0, sn_knob0 = 4095, sn_knob1 = 0, sn_knob2 = 2048 \<rparr>"
  have v: "valid_snapshot ?sn"
    by (simp add: valid_snapshot_def flags_range_def native_range_def knob_range_def)
  have e: "encode_snapshot ?sn =
     [0xC1, 0x06, 0x64, 0x00, 0xCE, 0xFF, 0x00, 0x00, 0x00, 0x00, 0xFF, 0x0F, 0x00, 0x00,
      0x00, 0x08]"
    by (simp add: encode_snapshot_def lo_byte_def hi_byte_def SYNC_DEVICE_TO_HOST_def)
  from outbound_roundtrip [OF v] v e show ?thesis by (simp add: SYNC_DEVICE_TO_HOST_def)
qed

section \<open>Properties of the snapshot hand-off\<close>

lemma overwrite2: "xs[0 := a, Suc 0 := b, 0 := c, Suc 0 := d] = xs[0 := c, Suc 0 := d]"
  by (cases xs) simp_all

lemma overwrite3:
  "xs[0 := a, Suc 0 := b, 2 := c, 0 := d, Suc 0 := e, 2 := f] = xs[0 := d, Suc 0 := e, 2 := f]"
proof (cases xs)
  case Nil
  then show ?thesis by simp
next
  case (Cons x ys)
  then show ?thesis by (cases ys) (simp_all add: numeral_2_eq_2)
qed

lemma publish_twice: "publishSnapshot b (publishSnapshot a s) = publishSnapshot b s"
  by (simp add: publishSnapshot_def overwrite2 overwrite3)

lemma take_after_publish:
  assumes "wf_shared s"
  shows "takeSnapshotIfReady (publishSnapshot hw s) =
           (Some (snapshot_of hw), (publishSnapshot hw s)\<lparr> inputs_ready := False \<rparr>)"
  using assms
  by (simp add: takeSnapshotIfReady_def publishSnapshot_def snapshot_of_def wf_shared_def Let_def)

lemma wf_shared_init: "wf_shared shared_init"
  by (simp add: wf_shared_def shared_init_def)

text \<open>
  C5: two report blocks with no read between them leave exactly the state the second one
  alone leaves (so nothing later can depend on the first, and nothing counts the loss),
  and the next read returns the eight values of the second.
\<close>

theorem latest_snapshot_wins:
  assumes "wf_shared s"
  shows "publishSnapshot b (publishSnapshot a s) = publishSnapshot b s
       \<and> takeSnapshotIfReady (publishSnapshot b (publishSnapshot a s)) =
           (Some (snapshot_of b), (publishSnapshot b s)\<lparr> inputs_ready := False \<rparr>)"
  using assms by (simp add: publish_twice take_after_publish)

theorem latest_snapshot_wins_witness:
  "wf_shared shared_init
   \<and> fst (takeSnapshotIfReady
       (publishSnapshot
          \<lparr> CVIn1 = 7, CVIn2 = 8, AudioIn1 = 9, AudioIn2 = 10, KnobMain = 11, KnobX = 12,
            KnobY = 13, PulseIn1 = True, PulseIn2 = False, SwitchVal = 2 \<rparr>
          (publishSnapshot
             \<lparr> CVIn1 = 1, CVIn2 = 2, AudioIn1 = 3, AudioIn2 = 4, KnobMain = 5, KnobX = 6,
               KnobY = 7, PulseIn1 = False, PulseIn2 = True, SwitchVal = 1 \<rparr>
             shared_init))) =
     Some \<lparr> sn_flags = 9, sn_cv0 = 7, sn_cv1 = 8, sn_audio0 = 9, sn_audio1 = 10,
            sn_knob0 = 11, sn_knob1 = 12, sn_knob2 = 13 \<rparr>"
  using latest_snapshot_wins [OF wf_shared_init,
      of "\<lparr> CVIn1 = 7, CVIn2 = 8, AudioIn1 = 9, AudioIn2 = 10, KnobMain = 11, KnobX = 12,
            KnobY = 13, PulseIn1 = True, PulseIn2 = False, SwitchVal = 2 \<rparr>"
         "\<lparr> CVIn1 = 1, CVIn2 = 2, AudioIn1 = 3, AudioIn2 = 4, KnobMain = 5, KnobX = 6,
               KnobY = 7, PulseIn1 = False, PulseIn2 = True, SwitchVal = 1 \<rparr>",
      THEN conjunct2]
    wf_shared_init
  by (simp add: snapshot_of_def report_flags_def)



section \<open>Properties of one iteration of \<^verbatim>\<open>usb_loop\<close>\<close>

lemma usb_send_targets:
  "target (fst (usb_send s)) = target s \<and> target_flags (fst (usb_send s)) = target_flags s"
  by (simp add: usb_send_def takeSnapshotIfReady_def Let_def)

lemma usb_send_targetsD:
  "usb_send s = (s', out) \<Longrightarrow> target s' = target s \<and> target_flags s' = target_flags s"
  using usb_send_targets [of s] by simp

lemma sampler_targets:
  "target (fst (snd (ProcessMainSample hw rc s))) = target s
   \<and> target_flags (fst (snd (ProcessMainSample hw rc s))) = target_flags s"
  by (simp add: ProcessMainSample_def publishSnapshot_def Let_def)

lemma decoder_step_incomplete:
  assumes "(pktPos u = 0 \<and> b \<noteq> SYNC_HOST_TO_DEVICE)
         \<or> (0 < pktPos u \<and> b = SYNC_HOST_TO_DEVICE)
         \<or> unat (pktPos u) + 1 < OUTPUT_PACKET_SIZE"
  shows "\<exists>u' ev. decoder_step b u = Inr (u', ev) \<and> ev \<in> {Resync, Dropped, Stored}"
proof -
  have "unat (pktPos u + 1) = Suc (unat (pktPos u))" if "unat (pktPos u) + 1 < 10"
    using that by (simp add: unat_succ_small)
  with assms show ?thesis
    by (auto simp: decoder_step_def Let_def OUTPUT_PACKET_SIZE_def)
qed

text \<open>
  C8: the targets and the target flags start at zero. A received byte that does not complete
  a packet (a non-sync byte while waiting, a sync byte met mid-packet, or a byte stored with
  fewer than 10 accumulated) is processed without fault and leaves the shared state, so the
  targets, as they were, also after the rest of the iteration; so do an iteration without a
  byte, the send section, and a sampler tick.
\<close>

theorem targets_change_only_on_complete_frame:
  assumes "(pktPos u = 0 \<and> b \<noteq> SYNC_HOST_TO_DEVICE)
         \<or> (0 < pktPos u \<and> b = SYNC_HOST_TO_DEVICE)
         \<or> unat (pktPos u) + 1 < OUTPUT_PACKET_SIZE"
  shows "target shared_init = [0, 0, 0, 0] \<and> target_flags shared_init = 0
       \<and> (\<exists>continued u'. usb_receive (Some b) u s = Inr (continued, u', s))
       \<and> (\<exists>u' s' out. usb_loop_body (Some b) u s = Inr (u', s', out)
             \<and> target s' = target s \<and> target_flags s' = target_flags s)
       \<and> (\<exists>s' out. usb_loop_body None u s = Inr (u, s', out)
             \<and> target s' = target s \<and> target_flags s' = target_flags s)
       \<and> target (fst (usb_send s)) = target s
       \<and> target_flags (fst (usb_send s)) = target_flags s
       \<and> target (fst (snd (ProcessMainSample hw rc s))) = target s
       \<and> target_flags (fst (snd (ProcessMainSample hw rc s))) = target_flags s"
proof -
  from decoder_step_incomplete [OF assms] obtain u' ev where
    d: "decoder_step b u = Inr (u', ev)" and ev: "ev \<in> {Resync, Dropped, Stored}" by blast
  from d ev have r: "\<exists>continued. usb_receive (Some b) u s = Inr (continued, u', s)"
    by (auto simp: usb_receive_def)
  then have "\<exists>s' out. usb_loop_body (Some b) u s = Inr (u', s', out)
      \<and> target s' = target s \<and> target_flags s' = target_flags s"
    by (cases "usb_send s") (auto simp: usb_loop_body_def dest: usb_send_targetsD)
  moreover have "\<exists>s' out. usb_loop_body None u s = Inr (u, s', out)
      \<and> target s' = target s \<and> target_flags s' = target_flags s"
    by (cases "usb_send s") (auto simp: usb_loop_body_def usb_receive_def dest: usb_send_targetsD)
  ultimately show ?thesis
    using r usb_send_targets [of s] sampler_targets [of hw rc s]
    by (simp add: shared_init_def) blast
qed

theorem targets_change_only_on_complete_frame_witness:
  "(0 < pktPos \<lparr> pktBuf = [0xC0, 0x01, 0, 0, 0, 0, 0, 0, 0, 0], pktPos = 2 \<rparr>
     \<and> (0xC0 :: u8) = SYNC_HOST_TO_DEVICE)
   \<and> usb_loop_body (Some 0xC0)
       \<lparr> pktBuf = [0xC0, 0x01, 0, 0, 0, 0, 0, 0, 0, 0], pktPos = 2 \<rparr> shared_init =
     Inr (\<lparr> pktBuf = [0xC0, 0x01, 0, 0, 0, 0, 0, 0, 0, 0], pktPos = 1 \<rparr>, shared_init, [])"
  using targets_change_only_on_complete_frame
    [of "\<lparr> pktBuf = [0xC0, 0x01, 0, 0, 0, 0, 0, 0, 0, 0], pktPos = 2 \<rparr>" "0xC0" shared_init]
  by (simp add: usb_loop_body_def usb_receive_def decoder_step_def SYNC_HOST_TO_DEVICE_def)

text \<open>
  C7: with a snapshot ready and the parser waiting for a sync byte, an iteration that reads
  the non-sync byte \<open>0x00\<close> ends at the second \<^verbatim>\<open>continue\<close>: nothing is written and the
  snapshot stays pending. The same state with no byte read, or with a sync byte read (which
  is stored), sends the 16-byte frame in that iteration.
\<close>

theorem send_skipped_after_dropped_byte:
  "usb_loop_body (Some 0x00) (usb_init [0, 0, 0, 0, 0, 0, 0, 0, 0, 0])
       (shared_init\<lparr> inputs_ready := True \<rparr>) =
     Inr (usb_init [0, 0, 0, 0, 0, 0, 0, 0, 0, 0], shared_init\<lparr> inputs_ready := True \<rparr>, [])
   \<and> usb_loop_body None (usb_init [0, 0, 0, 0, 0, 0, 0, 0, 0, 0])
       (shared_init\<lparr> inputs_ready := True \<rparr>) =
     Inr (usb_init [0, 0, 0, 0, 0, 0, 0, 0, 0, 0], shared_init,
          [0xC1, 0, 0, 0, 0, 0, 0, 0, 0, 0, 0, 0, 0, 0, 0, 0])
   \<and> usb_loop_body (Some 0xC0) (usb_init [0, 0, 0, 0, 0, 0, 0, 0, 0, 0])
       (shared_init\<lparr> inputs_ready := True \<rparr>) =
     Inr (\<lparr> pktBuf = [0xC0, 0, 0, 0, 0, 0, 0, 0, 0, 0], pktPos = 1 \<rparr>, shared_init,
          [0xC1, 0, 0, 0, 0, 0, 0, 0, 0, 0, 0, 0, 0, 0, 0, 0])"
  by (simp add: usb_loop_body_def usb_receive_def decoder_step_def usb_send_def
      takeSnapshotIfReady_def encode_snapshot_def lo_byte_def hi_byte_def usb_init_def
      shared_init_def SYNC_HOST_TO_DEVICE_def SYNC_DEVICE_TO_HOST_def OUTPUT_PACKET_SIZE_def
      Let_def)

section \<open>Properties of the sampler\<close>

lemma stb31: "- 2147483648 \<le> k \<Longrightarrow> k < 2147483648 \<Longrightarrow> signed_take_bit 31 (k :: int) = k"
  by (rule signed_take_bit_int_eq_self) simp_all










lemma sint16_bounds: "- 32768 \<le> sint (t :: i16) \<and> sint t \<le> 32767"
  using sint_ge [of t] sint_lt [of t] by simp

lemma sint_scast32: "sint (scast (t :: i16) :: i32) = sint t"
  by (simp add: sint_up_scast is_up)

lemma led_level_uint: "uint (led_level t) = (2 * \<bar>sint t\<bar>) mod 65536"
proof -
  define v :: i32 where "v = (if (scast t :: i32) <s 0 then - scast t else scast t)"
  have b: "- 32768 \<le> sint t" "sint t \<le> 32767" using sint16_bounds [of t] by simp_all
  have neg: "((scast t :: i32) <s 0) = (sint t < 0)"
    by (simp add: word_sless_alt sint_scast32)
  have sv: "sint v = \<bar>sint t\<bar>"
  proof (cases "sint t < 0")
    case True
    then have "sint v = signed_take_bit 31 (- sint t)"
      by (simp add: v_def neg sint_word_ariths sint_scast32)
    also have "\<dots> = - sint t" using b by (intro stb31) simp_all
    finally show ?thesis using True by simp
  next
    case False
    then show ?thesis by (simp add: v_def neg sint_scast32)
  qed
  have "sint (v * 2) = signed_take_bit 31 (\<bar>sint t\<bar> * 2)"
    by (simp add: sint_word_ariths sv)
  also have "\<dots> = \<bar>sint t\<bar> * 2" using b by (intro stb31) simp_all
  finally have s2: "sint (v * 2) = 2 * \<bar>sint t\<bar>" by simp
  have "uint (v * 2) = take_bit 32 (sint (v * 2))" by (simp add: uint_sint)
  also have "\<dots> = (2 * \<bar>sint t\<bar>) mod 4294967296" unfolding s2 by (simp add: take_bit_eq_mod)
  also have "\<dots> = 2 * \<bar>sint t\<bar>" using b by simp
  finally have u: "uint (v * 2) = 2 * \<bar>sint t\<bar>" .
  have "uint (led_level t) = take_bit 16 (uint (v * 2))"
    by (simp add: led_level_def Let_def v_def unsigned_ucast_eq)
  also have "\<dots> = (2 * \<bar>sint t\<bar>) mod 65536" unfolding u by (simp add: take_bit_eq_mod)
  finally show ?thesis .
qed

lemma led_level_exact: "t \<noteq> - 32768 \<Longrightarrow> uint (led_level t) = 2 * \<bar>sint t\<bar>"
proof -
  assume "t \<noteq> - 32768"
  then have "sint t \<noteq> sint (- 32768 :: i16)" by (simp only: word_eq_iff_signed [where ?'a = int] not_False_eq_True)
  then have "sint t \<noteq> - 32768" by simp
  with sint16_bounds [of t] have "2 * \<bar>sint t\<bar> < 65536" by arith
  then show ?thesis by (simp add: led_level_uint)
qed


lemma led_level_in_range:
  assumes "\<bar>sint t\<bar> \<le> 2047"
  shows "uint (led_level t) = 2 * \<bar>sint t\<bar> \<and> uint (led_level t) \<le> 4095"
  using assms by (simp add: led_level_uint)

lemma process_leds:
  "i < 4 \<Longrightarrow> LedBrightness (snd (snd (ProcessMainSample hw rc s))) ! i = led_level (target s ! i)"
  by (simp add: ProcessMainSample_def Let_def)

text \<open>
  C10, as stated, fails: targets arrive unclamped from the wire, and the targets
  \<open>2048\<close>, \<open>32767\<close>, \<open>-32768\<close> and \<open>-2048\<close> give the LED values 4096, 65534, 0 and
  4096: three are above 4095, and the third is not twice the magnitude 32768.
\<close>

theorem led_level_counterexample:
  "LedBrightness (snd (snd (ProcessMainSample
       \<lparr> CVIn1 = 0, CVIn2 = 0, AudioIn1 = 0, AudioIn2 = 0, KnobMain = 0, KnobX = 0,
         KnobY = 0, PulseIn1 = False, PulseIn2 = False, SwitchVal = 0 \<rparr> 0
       (setTargets \<lparr> cf_flags = 0, cf_ch1 = 2048, cf_ch2 = 32767, cf_ch3 = - 32768,
            cf_ch4 = - 2048 \<rparr>
          shared_init)))) = [4096, 65534, 0, 4096]
   \<and> \<not> uint (4096 :: u16) \<le> 4095
   \<and> uint (0 :: u16) \<noteq> 2 * \<bar>sint (- 32768 :: i16)\<bar>"
  by (simp add: ProcessMainSample_def Let_def setTargets_def shared_init_def led_level_def
      INPUT_REPORT_INTERVAL_def word_sless_alt word_sle_eq upt_conv_Cons)

text \<open>
  C10, amended: on every tick and for each channel \<open>i\<close> in \<open>0..3\<close>, the LED value written
  is twice the magnitude of the channel's target reduced modulo 65536 by the 16-bit cast,
  which is twice the magnitude for every target other than \<open>-32768\<close>; it lies in
  \<open>0..4095\<close> whenever the magnitude is at most 2047.
\<close>

theorem led_level_tracks_magnitude:
  assumes "i < 4"
  shows "LedBrightness (snd (snd (ProcessMainSample hw rc s))) ! i = led_level (target s ! i)
       \<and> uint (led_level (target s ! i)) = (2 * \<bar>sint (target s ! i)\<bar>) mod 65536
       \<and> (target s ! i \<noteq> - 32768 \<longrightarrow>
            uint (led_level (target s ! i)) = 2 * \<bar>sint (target s ! i)\<bar>)
       \<and> (\<bar>sint (target s ! i)\<bar> \<le> 2047 \<longrightarrow> uint (led_level (target s ! i)) \<le> 4095)"
  using process_leds [OF assms, of hw rc s] led_level_uint [of "target s ! i"]
    led_level_exact [of "target s ! i"] led_level_in_range [of "target s ! i"]
  by blast


theorem led_level_tracks_magnitude_witness:
  "(0 :: nat) < 4
   \<and> target (setTargets \<lparr> cf_flags = 0, cf_ch1 = - 100, cf_ch2 = 0, cf_ch3 = 0, cf_ch4 = 0 \<rparr>
        shared_init) ! 0 = - 100
   \<and> (- 100 :: i16) \<noteq> - 32768 \<and> \<bar>sint (- 100 :: i16)\<bar> \<le> 2047
   \<and> uint (LedBrightness (snd (snd (ProcessMainSample
       \<lparr> CVIn1 = 0, CVIn2 = 0, AudioIn1 = 0, AudioIn2 = 0, KnobMain = 0, KnobX = 0,
         KnobY = 0, PulseIn1 = False, PulseIn2 = False, SwitchVal = 0 \<rparr> 0
        (setTargets \<lparr> cf_flags = 0, cf_ch1 = - 100, cf_ch2 = 0, cf_ch3 = 0, cf_ch4 = 0 \<rparr>
           shared_init)))) ! 0) = 200"
  using led_level_tracks_magnitude [of 0
      "\<lparr> CVIn1 = 0, CVIn2 = 0, AudioIn1 = 0, AudioIn2 = 0, KnobMain = 0, KnobX = 0,
         KnobY = 0, PulseIn1 = False, PulseIn2 = False, SwitchVal = 0 \<rparr>" 0
      "setTargets \<lparr> cf_flags = 0, cf_ch1 = - 100, cf_ch2 = 0, cf_ch3 = 0, cf_ch4 = 0 \<rparr>
         shared_init"]
  by (simp add: setTargets_def shared_init_def)

end
